theory Spec2Isabelle
  imports Complex_Main "HOL-Library.AList"
begin

section \<open>Errors and tensors\<close>

text \<open>
  The exceptions that the code of \<^verbatim>\<open>openunmix/model.py\<close> and the tensor
  operations it calls can raise. A \<^verbatim>\<open>KeyError\<close> carries the missing key.
\<close>

datatype error =
    ZeroDivisionError
  | KeyError string
  | IndexError
  | RuntimeError
  | TypeError
  | ValueError

text \<open>
  A tensor is its shape and its elements in row-major (C-contiguous) order, which is the
  logical order every operation below is defined on. A well-formed tensor has as many
  elements as the product of its shape.
\<close>

record 'a tensor =
  shape :: "nat list"
  data :: "'a list"

definition numel :: "nat list \<Rightarrow> nat" where
  "numel s = prod_list s"

definition wf_tensor :: "'a tensor \<Rightarrow> bool" where
  "wf_tensor t = (length (data t) = numel (shape t))"

text \<open>Row-major flat index of a multi-index, and the multi-index of a flat index.\<close>

fun ravel :: "nat list \<Rightarrow> nat list \<Rightarrow> nat" where
  "ravel [] idx = 0"
| "ravel (d # ds) [] = 0"
| "ravel (d # ds) (k # ks) = k * numel ds + ravel ds ks"

fun unravel :: "nat list \<Rightarrow> nat \<Rightarrow> nat list" where
  "unravel [] i = []"
| "unravel (d # ds) i = (i div numel ds) # unravel ds (i mod numel ds)"

text \<open>\<^verbatim>\<open>torch.zeros(shape)\<close>.\<close>

definition zeros :: "nat list \<Rightarrow> ('a::zero) tensor" where
  "zeros s = \<lparr>shape = s, data = replicate (numel s) 0\<rparr>"

text \<open>
  \<^verbatim>\<open>Tensor.reshape(*dims)\<close>: the elements keep their row-major order. At most one
  entry may be \<^verbatim>\<open>-1\<close>; it is inferred from the number of elements. The cases are
  those of the size inference of the tensor library: the call fails for a negative entry
  other than \<^verbatim>\<open>-1\<close>, for two entries \<^verbatim>\<open>-1\<close>, when the element counts do not
  fit, and when the entry to infer is ambiguous because the other entries multiply to 0.
\<close>

definition reshape :: "'a tensor \<Rightarrow> int list \<Rightarrow> error + 'a tensor" where
  "reshape t dims =
     (let known = filter (\<lambda>d. d \<noteq> - 1) dims;
          infer = (length known \<noteq> length dims);
          newsize = nat (prod_list known);
          n = length (data t)
      in if (\<exists>d \<in> set dims. d < - 1) then Inl RuntimeError
         else if length known + 1 < length dims then Inl RuntimeError
         else if n = newsize \<or> (infer \<and> 0 < newsize \<and> n mod newsize = 0) then
           (if infer then
              (if newsize = 0 then Inl RuntimeError
               else Inr \<lparr>shape = map (\<lambda>d. if d = - 1 then n div newsize else nat d) dims,
                         data = data t\<rparr>)
            else Inr \<lparr>shape = map nat dims, data = data t\<rparr>)
         else Inl RuntimeError)"




text \<open>
  \<^verbatim>\<open>Tensor.permute(*perm)\<close>: axis \<^verbatim>\<open>k\<close> of the result is axis \<^verbatim>\<open>perm[k]\<close> of the
  argument. The call fails unless \<^verbatim>\<open>perm\<close> is a permutation of the axes.
\<close>

definition permute_index :: "nat list \<Rightarrow> nat list \<Rightarrow> nat list" where
  "permute_index perm oidx =
     fold (\<lambda>k acc. acc[perm ! k := oidx ! k]) [0 ..< length perm] (replicate (length perm) 0)"

definition permute :: "'a tensor \<Rightarrow> nat list \<Rightarrow> error + 'a tensor" where
  "permute t perm =
     (if distinct perm \<and> set perm = {0 ..< length (shape t)} then
        (let oshape = map (\<lambda>k. shape t ! k) perm
         in Inr \<lparr>shape = oshape,
                 data = map (\<lambda>i. data t ! ravel (shape t) (permute_index perm (unravel oshape i)))
                            [0 ..< numel oshape]\<rparr>)
      else Inl RuntimeError)"


text \<open>
  \<^verbatim>\<open>Tensor.expand\<close> to a target shape, as used by broadcasting: the shapes are aligned
  at the right, and an axis of the source must have the target's length or length 1, in
  which case its single entry is repeated.
\<close>

definition expand :: "'a tensor \<Rightarrow> nat list \<Rightarrow> error + 'a tensor" where
  "expand t tgt =
     (if length tgt < length (shape t) then Inl RuntimeError
      else
        (let src = replicate (length tgt - length (shape t)) 1 @ shape t
         in if (\<forall>(d, e) \<in> set (zip src tgt). d = e \<or> d = 1) then
              Inr \<lparr>shape = tgt,
                   data = map (\<lambda>i. data t ! ravel src
                                      (map (\<lambda>(d, k). if d = 1 then 0 else k)
                                           (zip src (unravel tgt i))))
                              [0 ..< numel tgt]\<rparr>
            else Inl RuntimeError))"


section \<open>The separator\<close>

text \<open>
  The time-frequency transforms, the magnitude extraction and the phase mixing come from
  \<^verbatim>\<open>openunmix/transforms.py\<close>; they are parameters here: \<^typ>\<open>'x\<close> is the type of
  complex spectrograms, \<^typ>\<open>'m\<close> the type of magnitude spectrograms, and each operator
  may fail. A masking network is any callable on magnitude spectrograms.

  The state of a \<^verbatim>\<open>Separator\<close>: \<^verbatim>\<open>nsgts\<close> maps a target name to its pair of
  transforms, \<^verbatim>\<open>target_models\<close> is the ordered registry (an \<^verbatim>\<open>nn.ModuleDict\<close>, so
  its names are distinct), \<^verbatim>\<open>phasemix_sep\<close> is the function imported by the module.
\<close>

record ('a, 'x) filterbank =
  nsgt :: "'a tensor \<Rightarrow> error + 'x"
  insgt :: "'x \<Rightarrow> nat \<Rightarrow> error + 'a tensor"

record ('a, 'x, 'm) Separator =
  nsgts :: "string \<rightharpoonup> ('a, 'x) filterbank"
  device :: string
  complexnorm :: "'x \<Rightarrow> error + 'm"
  phasemix_sep :: "'x \<Rightarrow> 'm \<Rightarrow> error + 'x"
  nb_channels :: int
  target_models :: "(string \<times> ('m \<Rightarrow> error + 'm)) list"
  nb_targets :: nat
  chunk_size_samples :: int
  seq_batch :: int
  sample_rate :: real

text \<open>
  \<^verbatim>\<open>Separator.__init__\<close>. \<^verbatim>\<open>make_filterbanks\<close> is the imported factory, and
  \<^verbatim>\<open>ComplexNorm(mono=...)\<close> the imported magnitude extraction. \<^verbatim>\<open>int(x)\<close> truncates
  towards zero; the product \<^verbatim>\<open>seq_dur*sample_rate\<close> is taken over the reals.
\<close>

definition py_int :: "real \<Rightarrow> int" where
  "py_int x = (if 0 \<le> x then \<lfloor>x\<rfloor> else \<lceil>x\<rceil>)"

definition Separator_init ::
  "('b \<Rightarrow> real \<Rightarrow> ('a, 'x) filterbank) \<Rightarrow> (bool \<Rightarrow> 'x \<Rightarrow> error + 'm) \<Rightarrow>
   ('x \<Rightarrow> 'm \<Rightarrow> error + 'x) \<Rightarrow>
   (string \<times> ('m \<Rightarrow> error + 'm)) list \<Rightarrow> (string \<times> 'b) list \<Rightarrow>
   real \<Rightarrow> int \<Rightarrow> real \<Rightarrow> int \<Rightarrow> string \<Rightarrow> ('a, 'x, 'm) Separator" where
  "Separator_init make_filterbanks ComplexNorm phasemix target_models_arg target_models_nsgt
       sample_rate_arg nb_channels_arg seq_dur seq_batch_arg device_arg =
     \<lparr>nsgts = map_of (map (\<lambda>(name, nsgt_base).
                             (name, make_filterbanks nsgt_base sample_rate_arg))
                          target_models_nsgt),
      device = device_arg,
      complexnorm = ComplexNorm (nb_channels_arg = 1),
      phasemix_sep = phasemix,
      nb_channels = nb_channels_arg,
      target_models = target_models_arg,
      nb_targets = length target_models_arg,
      chunk_size_samples = py_int (seq_dur * sample_rate_arg),
      seq_batch = seq_batch_arg,
      sample_rate = sample_rate_arg\<rparr>"

text \<open>
  \<^verbatim>\<open>np.ceil(N/d)\<close> for integers: the division raises for \<^verbatim>\<open>d = 0\<close>; otherwise the
  result is the ceiling of the quotient (\<open>np_ceil_div_real\<close> below).
\<close>

definition np_ceil_div :: "int \<Rightarrow> int \<Rightarrow> error + int" where
  "np_ceil_div n d = (if d = 0 then Inl ZeroDivisionError else Inr (- ((- n) div d)))"









text \<open>
  A small separator for concrete runs: both transforms, the magnitude extraction and the
  phase mixing pass their argument on, the network of the first target is the identity and
  the network of the second multiplies by 10. Chunks have 2 samples and are processed 2 at
  a time.
\<close>

definition example_filterbank :: "(int, int tensor) filterbank" where
  "example_filterbank = \<lparr>nsgt = Inr, insgt = (\<lambda>Y n. Inr Y)\<rparr>"

definition example_separator :: "(int, int tensor, int tensor) Separator" where
  "example_separator =
     Separator_init (\<lambda>(nsgt_base :: unit) rate. example_filterbank) (\<lambda>mono. Inr)
       (\<lambda>X Ymag. Inr Ymag)
       [(''vocals'', Inr), (''drums'', \<lambda>m. Inr (m\<lparr>data := map (\<lambda>v. 10 * v) (data m)\<rparr>))]
       [(''vocals'', ()), (''drums'', ())]
       1 2 2 2 ''cpu''"


text \<open>
  \<^verbatim>\<open>t[:, k, ...]\<close>: the slice of a tensor at position \<^verbatim>\<open>k\<close> of its second axis;
  an \<^verbatim>\<open>IndexError\<close> when the tensor has fewer than two axes or the axis is too short.
\<close>

definition select_dim1 :: "'a tensor \<Rightarrow> nat \<Rightarrow> error + 'a tensor" where
  "select_dim1 t k =
     (case shape t of
        d0 # d1 # rest \<Rightarrow>
          if k < d1 then
            Inr \<lparr>shape = d0 # rest,
                 data = map (\<lambda>i. data t ! ((i div numel rest) * (d1 * numel rest)
                                           + k * numel rest + i mod numel rest))
                            [0 ..< d0 * numel rest]\<rparr>
          else Inl IndexError
      | _ \<Rightarrow> Inl IndexError)"

text \<open>
  Elementwise binary operations broadcast their arguments: the shapes are aligned at the
  right, and two axes fit when their lengths are equal or one of them is 1.
\<close>

definition broadcast_shapes :: "nat list \<Rightarrow> nat list \<Rightarrow> error + nat list" where
  "broadcast_shapes a b =
     (let n = max (length a) (length b);
          a' = replicate (n - length a) 1 @ a;
          b' = replicate (n - length b) 1 @ b
      in if (\<forall>(d, e) \<in> set (zip a' b'). d = e \<or> d = 1 \<or> e = 1)
         then Inr (map (\<lambda>(d, e). if d = 1 then e else d) (zip a' b'))
         else Inl RuntimeError)"

definition tensor_binop ::
  "('a \<Rightarrow> 'a \<Rightarrow> 'a) \<Rightarrow> 'a tensor \<Rightarrow> 'a tensor \<Rightarrow> error + 'a tensor" where
  "tensor_binop f a b =
     (case broadcast_shapes (shape a) (shape b) of
        Inl e \<Rightarrow> Inl e
      | Inr s \<Rightarrow>
        (case expand a s of
           Inl e \<Rightarrow> Inl e
         | Inr a' \<Rightarrow>
           (case expand b s of
              Inl e \<Rightarrow> Inl e
            | Inr b' \<Rightarrow> Inr \<lparr>shape = s, data = map2 f (data a') (data b')\<rparr>)))"

text \<open>
  \<^verbatim>\<open>Separator.to_dict\<close>. A dictionary is an association list in insertion order;
  \<^const>\<open>AList.update\<close> overwrites the value of a key in place or appends a new key, as an
  assignment \<^verbatim>\<open>d[k] = v\<close> does. The first loop (lines 257 and 258):
\<close>

fun to_dict_slices ::
  "(nat \<times> string) list \<Rightarrow> 'a tensor \<Rightarrow> (string \<times> 'a tensor) list \<Rightarrow>
   error + (string \<times> 'a tensor) list" where
  "to_dict_slices [] estimates estimates_dict = Inr estimates_dict"
| "to_dict_slices ((k, target) # rest) estimates estimates_dict =
     (case select_dim1 estimates k of
        Inl e \<Rightarrow> Inl e
      | Inr v \<Rightarrow> to_dict_slices rest estimates (AList.update target v estimates_dict))"

text \<open>
  The inner loop of the aggregation (lines 264 and 265): the left operand
  \<^verbatim>\<open>new_estimates[key]\<close> is read before \<^verbatim>\<open>estimates_dict[target]\<close>.
\<close>

fun aggregate_targets ::
  "(string \<times> ('a::plus) tensor) list \<Rightarrow> string \<Rightarrow> string list \<Rightarrow>
   (string \<times> 'a tensor) list \<Rightarrow> error + (string \<times> 'a tensor) list" where
  "aggregate_targets estimates_dict key [] new_estimates = Inr new_estimates"
| "aggregate_targets estimates_dict key (target # rest) new_estimates =
     (case map_of new_estimates key of
        None \<Rightarrow> Inl (KeyError key)
      | Some acc \<Rightarrow>
        (case map_of estimates_dict target of
           None \<Rightarrow> Inl (KeyError target)
         | Some v \<Rightarrow>
           (case tensor_binop (+) acc v of
              Inl e \<Rightarrow> Inl e
            | Inr w \<Rightarrow>
                aggregate_targets estimates_dict key rest (AList.update key w new_estimates))))"

text \<open>
  The outer loop (lines 262 and 263) over the keys of \<^verbatim>\<open>aggregate_dict\<close>;
  \<^verbatim>\<open>torch.tensor(0.0)\<close> is the tensor without axes that holds 0.
\<close>

fun aggregate_keys ::
  "(string \<times> ('a::{zero,plus}) tensor) list \<Rightarrow> (string \<times> string list) list \<Rightarrow> string list \<Rightarrow>
   (string \<times> 'a tensor) list \<Rightarrow> error + (string \<times> 'a tensor) list" where
  "aggregate_keys estimates_dict aggregate_dict [] new_estimates = Inr new_estimates"
| "aggregate_keys estimates_dict aggregate_dict (key # keys) new_estimates =
     (case map_of aggregate_dict key of
        None \<Rightarrow> Inl (KeyError key)
      | Some targets \<Rightarrow>
        (case aggregate_targets estimates_dict key targets
                (AList.update key \<lparr>shape = [], data = [0]\<rparr> new_estimates) of
           Inl e \<Rightarrow> Inl e
         | Inr new_estimates' \<Rightarrow>
             aggregate_keys estimates_dict aggregate_dict keys new_estimates'))"

definition to_dict ::
  "('a::{zero,plus}, 'x, 'm) Separator \<Rightarrow> 'a tensor \<Rightarrow> (string \<times> string list) list option \<Rightarrow>
   error + (string \<times> 'a tensor) list" where
  "to_dict self estimates aggregate_dict =
     (case to_dict_slices (enumerate 0 (map fst (target_models self))) estimates [] of
        Inl e \<Rightarrow> Inl e
      | Inr estimates_dict \<Rightarrow>
        (case aggregate_dict of
           None \<Rightarrow> Inr estimates_dict
         | Some agg \<Rightarrow> aggregate_keys estimates_dict agg (map fst agg) []))"

section \<open>The masking network\<close>

text \<open>
  The layers of \<^verbatim>\<open>torch.nn\<close> that \<^verbatim>\<open>OpenUnmix.__init__\<close> instantiates. A
  convolution carries its channel counts, kernel size and stride, a transposed
  convolution its output padding as well. The values a layer computes depend on weights
  that are initialised at random, so each layer with weights carries the function from
  its input to the entries of its output; batch normalization computes differently in
  training mode and in evaluation mode. The shapes follow the layer's parameters.
\<close>

type_synonym dims3 = "nat \<times> nat \<times> nat"

datatype layer =
    Conv3d nat nat dims3 dims3 "real tensor \<Rightarrow> real list"
  | ReLU
  | BatchNorm3d nat "bool \<Rightarrow> real tensor \<Rightarrow> real list"
  | ConvTranspose3d nat nat dims3 dims3 dims3 "real tensor \<Rightarrow> real list"

definition conv_out :: "nat \<Rightarrow> nat \<Rightarrow> nat \<Rightarrow> nat" where
  "conv_out n k s = (n - k) div s + 1"

definition conv_transpose_out :: "nat \<Rightarrow> nat \<Rightarrow> nat \<Rightarrow> nat \<Rightarrow> nat" where
  "conv_transpose_out n k s p = (n - 1) * s + k + p"

text \<open>
  Applying a layer to a batched input \<^verbatim>\<open>(n, c, d, h, w)\<close>, which is what
  \<^verbatim>\<open>forward\<close> feeds the layers. A convolution fails when the channels do not match or
  the kernel is larger than the input; batch normalization fails when the channels do not
  match and, in training mode, when there is a single value per channel.
\<close>

fun apply_layer :: "bool \<Rightarrow> layer \<Rightarrow> real tensor \<Rightarrow> error + real tensor" where
  "apply_layer training (Conv3d cin cout (kd, kh, kw) (sd, sh, sw) f) x =
     (case shape x of
        [n, c, d, h, w] \<Rightarrow>
          if c \<noteq> cin \<or> d < kd \<or> h < kh \<or> w < kw then Inl RuntimeError
          else Inr \<lparr>shape = [n, cout, conv_out d kd sd, conv_out h kh sh, conv_out w kw sw],
                    data = f x\<rparr>
      | _ \<Rightarrow> Inl RuntimeError)"
| "apply_layer training ReLU x = Inr (x\<lparr>data := map (max 0) (data x)\<rparr>)"
| "apply_layer training (BatchNorm3d num_features f) x =
     (case shape x of
        [n, c, d, h, w] \<Rightarrow>
          if training \<and> n * d * h * w = 1 then Inl ValueError
          else if c \<noteq> num_features then Inl RuntimeError
          else Inr (x\<lparr>data := f training x\<rparr>)
      | _ \<Rightarrow> Inl ValueError)"
| "apply_layer training (ConvTranspose3d cin cout (kd, kh, kw) (sd, sh, sw) (pd, ph, pw) f) x =
     (case shape x of
        [n, c, d, h, w] \<Rightarrow>
          if c \<noteq> cin \<or> d = 0 \<or> h = 0 \<or> w = 0 then Inl RuntimeError
          else Inr \<lparr>shape = [n, cout, conv_transpose_out d kd sd pd,
                             conv_transpose_out h kh sh ph, conv_transpose_out w kw sw pw],
                    data = f x\<rparr>
      | _ \<Rightarrow> Inl RuntimeError)"

text \<open>\<^verbatim>\<open>for layer in layers: x = layer(x)\<close>.\<close>

fun apply_layers :: "bool \<Rightarrow> layer list \<Rightarrow> real tensor \<Rightarrow> error + real tensor" where
  "apply_layers training [] x = Inr x"
| "apply_layers training (layer # layers) x =
     (case apply_layer training layer x of
        Inl e \<Rightarrow> Inl e
      | Inr x' \<Rightarrow> apply_layers training layers x')"

record OpenUnmix =
  nb_bins :: nat
  M :: nat
  conv1 :: nat
  conv2 :: nat
  encoder :: "layer list"
  decoder :: "layer list"
  input_mean :: "real list"
  input_scale :: "real list"
  training :: bool



text \<open>\<^verbatim>\<open>v[: n]\<close> of a vector, as a tensor with one axis.\<close>

definition vector_prefix :: "'a list \<Rightarrow> nat \<Rightarrow> 'a tensor" where
  "vector_prefix v n = \<lparr>shape = [min n (length v)], data = take n v\<rparr>"

text \<open>
  Lines 92 to 101 of \<^verbatim>\<open>OpenUnmix.forward\<close>: the input must have five axes; it is
  reshaped, permuted, shifted and scaled.
\<close>

definition normalize_input :: "OpenUnmix \<Rightarrow> real tensor \<Rightarrow> error + real tensor" where
  "normalize_input self x =
     (case shape x of
        [n_samples, n_channels, n_f_bins, n_frames, n_m_bins] \<Rightarrow>
          (case reshape x [int n_samples, int n_channels, int n_f_bins, - 1] of
             Inl e \<Rightarrow> Inl e
           | Inr x1 \<Rightarrow>
             (case permute x1 [3, 0, 1, 2] of
                Inl e \<Rightarrow> Inl e
              | Inr x2 \<Rightarrow>
                (case tensor_binop (+) x2 (vector_prefix (input_mean self) (nb_bins self)) of
                   Inl e \<Rightarrow> Inl e
                 | Inr x3 \<Rightarrow>
                     tensor_binop (*) x3 (vector_prefix (input_scale self) (nb_bins self)))))
      | _ \<Rightarrow> Inl ValueError)"

text \<open>Lines 103 to 109: the reshape to five axes, the encoder and the decoder.\<close>

definition encode_decode :: "OpenUnmix \<Rightarrow> real tensor \<Rightarrow> error + real tensor" where
  "encode_decode self x =
     (case normalize_input self x of
        Inl e \<Rightarrow> Inl e
      | Inr x4 \<Rightarrow>
        (case shape x of
           [n_samples, n_channels, n_f_bins, n_frames, n_m_bins] \<Rightarrow>
             (case reshape x4 [int n_samples, int n_channels, int n_frames, int n_f_bins,
                               int n_m_bins] of
                Inl e \<Rightarrow> Inl e
              | Inr x5 \<Rightarrow>
                (case apply_layers (training self) (encoder self) x5 of
                   Inl e \<Rightarrow> Inl e
                 | Inr x6 \<Rightarrow> apply_layers (training self) (decoder self) x6))
         | _ \<Rightarrow> Inl ValueError))"

text \<open>\<^verbatim>\<open>OpenUnmix.forward\<close>: the decoder's output is permuted and returned.\<close>

definition OpenUnmix_forward :: "OpenUnmix \<Rightarrow> real tensor \<Rightarrow> error + real tensor" where
  "OpenUnmix_forward self x =
     (case encode_decode self x of
        Inl e \<Rightarrow> Inl e
      | Inr x7 \<Rightarrow> permute x7 [0, 1, 3, 2, 4])"

section \<open>Freezing\<close>

text \<open>
  The state of an \<^verbatim>\<open>nn.Module\<close> that \<^verbatim>\<open>freeze\<close> touches: the class of the module,
  its training flag, the \<^verbatim>\<open>requires_grad\<close> flag of each of its own parameters, and
  its registered sub-modules.
\<close>

datatype module = Module (kind: string) (training_flag: bool) (requires_grad: "bool list")
  (children: "module list")


fun modules :: "module \<Rightarrow> module list" where
  "modules (Module k t ps cs) = Module k t ps cs # concat (map modules cs)"








definition example_estimates :: "int tensor" where
  "example_estimates =
     \<lparr>shape = [1, 2, 2, 3], data = [1, 2, 3, 4, 5, 6, 10, 20, 30, 40, 50, 60]\<rparr>"

definition example_aggregate :: "(string \<times> string list) list" where
  "example_aggregate = [(''vocals_and_drums'', [''vocals'', ''drums''])]"

definition example_bad_aggregate :: "(string \<times> string list) list" where
  "example_bad_aggregate = [(''mix'', [''vocals'', ''bass''])]"







definition example_spectrogram_105 :: "real tensor" where
  "example_spectrogram_105 = zeros [1, 1, 21, 10, 105]"

definition example_spectrogram_113 :: "real tensor" where
  "example_spectrogram_113 = zeros [1, 1, 21, 10, 113]"

(*DEFS-END*)

section \<open>Auxiliary facts\<close>

subsection \<open>Ceiling division\<close>

lemma np_ceil_div_real:
  "d \<noteq> 0 \<Longrightarrow> np_ceil_div n d = Inr \<lceil>real_of_int n / real_of_int d\<rceil>"
  by (simp add: np_ceil_div_def ceiling_divide_eq_div)


lemma ceil_mult_lt:
  fixes n d :: int
  assumes "0 < d"
  shows "- ((- n) div d) * d < n + d"
proof -
  have "- n = (- n) div d * d + (- n) mod d" by simp
  moreover have "(- n) mod d < d" using assms by simp
  ultimately show ?thesis by linarith
qed




subsection \<open>Tensor operations\<close>


lemma unravel4:
  "unravel [S, T, C, L] i = [i div (T * C * L), (i mod (T * C * L)) div (C * L),
      (i mod (T * C * L) mod (C * L)) div L, i mod (T * C * L) mod (C * L) mod L]"
  by (simp add: numel_def mult.assoc)









lemma ravel_mask_unravel:
  "i < numel s \<Longrightarrow> ravel s (map (\<lambda>(d, k). if d = 1 then 0 else k) (zip s (unravel s i))) = i"
proof (induction s arbitrary: i)
  case Nil
  then show ?case by (simp add: numel_def)
next
  case (Cons d ds)
  from Cons.prems have lt: "i < d * numel ds" by (simp add: numel_def)
  then have pos: "0 < numel ds" by (cases "numel ds") auto
  then have "i mod numel ds < numel ds" by simp
  then have ih: "ravel ds (map (\<lambda>(d, k). if d = 1 then 0 else k) (zip ds (unravel ds (i mod numel ds))))
      = i mod numel ds"
    by (rule Cons.IH)
  show ?case
  proof (cases "d = 1")
    case True
    then have "i < numel ds" using lt by simp
    then show ?thesis using True ih by simp
  next
    case False
    then show ?thesis using ih by simp
  qed
qed














subsection \<open>The forward pass of the separator\<close>




lemma example_separator_simps:
  "nb_channels example_separator = 2" "seq_batch example_separator = 2"
  "chunk_size_samples example_separator = 2" "nb_targets example_separator = 2"
  "target_models example_separator =
     [(''vocals'', Inr), (''drums'', \<lambda>m. Inr (m\<lparr>data := map (\<lambda>v. 10 * v) (data m)\<rparr>))]"
  by (simp_all add: example_separator_def Separator_init_def py_int_def)


section \<open>Length invariance\<close>



section \<open>Padding\<close>



lemma select_dim1_ok:
  assumes "shape t = d0 # d1 # rest" "k < d1"
  shows "select_dim1 t k =
     Inr \<lparr>shape = d0 # rest,
          data = map (\<lambda>i. data t ! ((i div numel rest) * (d1 * numel rest)
                                    + k * numel rest + i mod numel rest))
                     [0 ..< d0 * numel rest]\<rparr>"
  using assms by (simp add: select_dim1_def)

lemma to_dict_slices_ok:
  assumes "shape est = d0 # d1 # rest" "j0 + length names \<le> d1" "distinct names"
    "set names \<inter> fst ` set acc = {}"
  shows "\<exists>d. to_dict_slices (enumerate j0 names) est acc = Inr d \<and>
           map fst d = map fst acc @ names \<and>
           (\<forall>i < length names. \<exists>v. select_dim1 est (j0 + i) = Inr v \<and>
               map_of d (names ! i) = Some v) \<and>
           (\<forall>k. k \<notin> set names \<longrightarrow> map_of d k = map_of acc k)"
  using assms(2-4)
proof (induction names arbitrary: j0 acc)
  case Nil
  then show ?case by simp
next
  case (Cons name names)
  have "j0 < d1" using Cons.prems(1) by simp
  with assms(1) obtain v where v: "select_dim1 est j0 = Inr v"
    using select_dim1_ok by blast
  let ?acc = "AList.update name v acc"
  have notin: "name \<notin> fst ` set acc" using Cons.prems(3) by auto
  have keys: "map fst ?acc = map fst acc @ [name]"
    using notin by (simp add: update_keys)
  have disj: "set names \<inter> fst ` set ?acc = {}"
  proof -
    have "fst ` set ?acc = set (map fst ?acc)" by simp
    also have "\<dots> = fst ` set acc \<union> {name}" by (simp only: keys) auto
    finally show ?thesis using Cons.prems(2,3) by auto
  qed
  have "Suc j0 + length names \<le> d1" using Cons.prems(1) by simp
  moreover have "distinct names" using Cons.prems(2) by simp
  ultimately obtain d where d: "to_dict_slices (enumerate (Suc j0) names) est ?acc = Inr d"
      "map fst d = map fst ?acc @ names"
      "\<forall>i < length names. \<exists>w. select_dim1 est (Suc j0 + i) = Inr w \<and>
               map_of d (names ! i) = Some w"
      "\<forall>k. k \<notin> set names \<longrightarrow> map_of d k = map_of ?acc k"
    using Cons.IH [OF _ _ disj] by blast
  have run: "to_dict_slices (enumerate j0 (name # names)) est acc = Inr d"
    using v d(1) by simp
  have k1: "map fst d = map fst acc @ name # names" using d(2) keys by simp
  have "name \<notin> set names" using Cons.prems(2) by simp
  then have hd: "map_of d name = Some v" using d(4) by (simp add: update_conv')
  have vals: "\<forall>i < length (name # names). \<exists>w. select_dim1 est (j0 + i) = Inr w \<and>
               map_of d ((name # names) ! i) = Some w"
  proof (intro allI impI)
    fix i assume i: "i < length (name # names)"
    show "\<exists>w. select_dim1 est (j0 + i) = Inr w \<and> map_of d ((name # names) ! i) = Some w"
    proof (cases i)
      case 0
      then show ?thesis using v hd by simp
    next
      case (Suc i')
      then show ?thesis using d(3) i by simp
    qed
  qed
  have others: "\<forall>k. k \<notin> set (name # names) \<longrightarrow> map_of d k = map_of acc k"
    using d(4) by (simp add: update_conv')
  show ?case using run k1 vals others by blast
qed

lemma to_dict_None_ok:
  assumes "shape estimates = d0 # d1 # rest" "length (target_models self) \<le> d1"
    "distinct (map fst (target_models self))"
  shows "\<exists>d. to_dict self estimates None = Inr d \<and>
           map fst d = map fst (target_models self) \<and>
           (\<forall>j < length (target_models self). \<exists>v. select_dim1 estimates j = Inr v \<and>
               map_of d (fst (target_models self ! j)) = Some v)"
proof -
  let ?names = "map fst (target_models self)"
  have "0 + length ?names \<le> d1" using assms(2) by simp
  moreover have "set ?names \<inter> fst ` set ([] :: (string \<times> 'a tensor) list) = {}" by simp
  ultimately obtain d where d: "to_dict_slices (enumerate 0 ?names) estimates [] = Inr d"
      "map fst d = map fst ([] :: (string \<times> 'a tensor) list) @ ?names"
      "\<forall>i < length ?names. \<exists>v. select_dim1 estimates (0 + i) = Inr v \<and>
               map_of d (?names ! i) = Some v"
    using to_dict_slices_ok [OF assms(1) _ assms(3)] by blast
  have "to_dict self estimates None = Inr d" using d(1) by (simp add: to_dict_def)
  moreover have "map fst d = ?names" using d(2) by simp
  moreover have "\<forall>j < length (target_models self). \<exists>v. select_dim1 estimates j = Inr v \<and>
               map_of d (fst (target_models self ! j)) = Some v"
    using d(3) by simp
  ultimately show ?thesis by blast
qed

lemma example_separator_distinct: "distinct (map fst (target_models example_separator))"
  by (simp add: example_separator_simps)

section \<open>Target ordering\<close>






section \<open>Independence of the targets\<close>






lemma expand_id:
  assumes "wf_tensor t"
  shows "expand t (shape t) = Inr t"
proof -
  let ?s = "shape t"
  have len: "length (data t) = numel ?s" using assms by (simp add: wf_tensor_def)
  have "map (\<lambda>i. data t ! ravel ?s (map (\<lambda>(d, k). if d = 1 then 0 else k) (zip ?s (unravel ?s i))))
            [0 ..< numel ?s] = map (\<lambda>i. data t ! i) [0 ..< numel ?s]"
  proof (rule map_cong [OF refl])
    fix i assume "i \<in> set [0 ..< numel ?s]"
    then have "i < numel ?s" by simp
    then show "data t ! ravel ?s (map (\<lambda>(d, k). if d = 1 then 0 else k) (zip ?s (unravel ?s i)))
        = data t ! i"
      by (simp only: ravel_mask_unravel)
  qed
  also have "\<dots> = data t" using map_nth [of "data t"] len by simp
  finally have dat: "map (\<lambda>i. data t ! ravel ?s (map (\<lambda>(d, k). if d = 1 then 0 else k) (zip ?s (unravel ?s i))))
            [0 ..< numel ?s] = data t" .
  have all: "\<forall>(d, e) \<in> set (zip ?s ?s). d = e \<or> d = 1"
    by (auto simp: zip_same)
  have "expand t ?s = Inr \<lparr>shape = ?s, data = data t\<rparr>"
    unfolding expand_def using all dat by (simp add: Let_def)
  then show ?thesis by simp
qed

lemma ravel_ones_mask:
  "ravel (replicate n 1) (map (\<lambda>(d, k). if d = 1 then 0 else k) (zip (replicate n 1) ks)) = 0"
proof (induction n arbitrary: ks)
  case 0
  then show ?case by simp
next
  case (Suc n)
  show ?case
  proof (cases ks)
    case Nil
    then show ?thesis by simp
  next
    case (Cons k ks')
    then show ?thesis using Suc.IH [of ks'] by simp
  qed
qed

lemma expand_scalar:
  assumes "shape a = []" "data a = [z]"
  shows "expand a s = Inr \<lparr>shape = s, data = replicate (numel s) z\<rparr>"
proof -
  have all: "\<forall>(d, e) \<in> set (zip (replicate (length s) (1::nat)) s). d = e \<or> d = 1"
    by (auto dest: set_zip_leftD)
  have "map (\<lambda>i. data a ! ravel (replicate (length s) 1)
               (map (\<lambda>(d, k). if d = 1 then 0 else k) (zip (replicate (length s) 1) (unravel s i))))
            [0 ..< numel s] = map (\<lambda>i. z) [0 ..< numel s]"
    by (rule map_cong [OF refl]) (simp only: ravel_ones_mask assms(2) nth_Cons_0)
  also have "\<dots> = replicate (numel s) z" by (simp add: map_replicate_const)
  finally have dat: "map (\<lambda>i. data a ! ravel (replicate (length s) 1)
               (map (\<lambda>(d, k). if d = 1 then 0 else k) (zip (replicate (length s) 1) (unravel s i))))
            [0 ..< numel s] = replicate (numel s) z" .
  show ?thesis
    unfolding expand_def using assms(1) all dat by (simp add: Let_def del: One_nat_def)
qed

lemma broadcast_shapes_scalar: "broadcast_shapes [] s = Inr s"
proof -
  have all: "\<forall>(d, e) \<in> set (zip (replicate (length s) (1::nat)) s). d = e \<or> d = 1 \<or> e = 1"
    by (auto dest: set_zip_leftD)
  have "map (\<lambda>(d, e). if d = 1 then e else d) (zip (replicate (length s) (1::nat)) s) = s"
    by (induction s) simp_all
  then show ?thesis unfolding broadcast_shapes_def using all by (simp add: Let_def)
qed

lemma broadcast_shapes_same: "broadcast_shapes s s = Inr s"
proof -
  have "map (\<lambda>(d, e). if d = 1 then e else d) (zip s s) = s"
    by (induction s) simp_all
  moreover have "\<forall>(d, e) \<in> set (zip s s). d = e \<or> d = 1 \<or> e = 1"
    by (auto simp: zip_same)
  ultimately show ?thesis unfolding broadcast_shapes_def by (simp add: Let_def del: One_nat_def)
qed

lemma tensor_binop_scalar:
  assumes "shape a = []" "data a = [z]" "wf_tensor v"
  shows "tensor_binop f a v = Inr \<lparr>shape = shape v, data = map (f z) (data v)\<rparr>"
proof -
  have len: "length (data v) = numel (shape v)" using assms(3) by (simp add: wf_tensor_def)
  have "map2 f (replicate (numel (shape v)) z) (data v) = map (f z) (data v)"
    using len by (simp add: map2_map_map [symmetric] zip_replicate1 del: map2_map_map)
  then show ?thesis
    unfolding tensor_binop_def
    by (simp add: assms(1) broadcast_shapes_scalar expand_scalar [OF assms(1,2)]
        expand_id [OF assms(3)])
qed

lemma tensor_binop_same:
  assumes "wf_tensor a" "wf_tensor v" "shape a = shape v"
  shows "tensor_binop f a v = Inr \<lparr>shape = shape v, data = map2 f (data a) (data v)\<rparr>"
  unfolding tensor_binop_def
  using expand_id [OF assms(1)] expand_id [OF assms(2)]
  by (simp add: assms(3) broadcast_shapes_same)

lemma list_all2_ex: "(\<forall>x \<in> set xs. \<exists>y. P x y) \<Longrightarrow> \<exists>ys. list_all2 P xs ys"
proof (induction xs)
  case Nil
  then show ?case by simp
next
  case (Cons x xs)
  then obtain y ys where "P x y" "list_all2 P xs ys" by auto
  then have "list_all2 P (x # xs) (y # ys)" by simp
  then show ?case ..
qed

lemma update_present_keys:
  assumes "map_of new key = Some acc"
  shows "map fst (AList.update key w new) = map fst new"
proof -
  have "key \<in> fst ` set new" using assms by (metis domI dom_map_of_conv_image_fst)
  then show ?thesis by (simp add: update_keys)
qed

lemma aggregate_targets_full:
  assumes "map_of new key = Some acc" "shape acc = s0" "wf_tensor acc"
    "list_all2 (\<lambda>name t. map_of ed name = Some t \<and> shape t = s0 \<and> wf_tensor t) targets slices"
  shows "\<exists>new' w. aggregate_targets ed key targets new = Inr new' \<and>
           map fst new' = map fst new \<and> map_of new' = (map_of new)(key \<mapsto> w) \<and>
           shape w = s0 \<and> wf_tensor w \<and>
           (\<forall>i < numel s0. data w ! i = foldl (+) (data acc ! i) (map (\<lambda>t. data t ! i) slices))"
  using assms
proof (induction targets arbitrary: new acc slices)
  case Nil
  then have sl: "slices = []" by simp
  have mp: "map_of new = (map_of new)(key \<mapsto> acc)"
    using Nil.prems(1) by (simp add: map_upd_triv)
  have "aggregate_targets ed key [] new = Inr new \<and>
           map fst new = map fst new \<and> map_of new = (map_of new)(key \<mapsto> acc) \<and>
           shape acc = s0 \<and> wf_tensor acc \<and>
           (\<forall>i < numel s0. data acc ! i = foldl (+) (data acc ! i) (map (\<lambda>t. data t ! i) slices))"
    using mp Nil.prems(2,3) sl by simp
  then show ?case by blast
next
  case (Cons target targets)
  from Cons.prems(4) obtain t ts where sl: "slices = t # ts"
      "map_of ed target = Some t" "shape t = s0" "wf_tensor t"
      "list_all2 (\<lambda>name t. map_of ed name = Some t \<and> shape t = s0 \<and> wf_tensor t) targets ts"
    by (auto simp: list_all2_Cons1)
  define w1 where "w1 = \<lparr>shape = shape t, data = map2 (+) (data acc) (data t)\<rparr>"
  have bin: "tensor_binop (+) acc t = Inr w1"
    unfolding w1_def using Cons.prems(3) sl(4) Cons.prems(2) sl(3)
    by (intro tensor_binop_same) simp_all
  have la: "length (data acc) = numel s0" and lt: "length (data t) = numel s0"
    using Cons.prems(2,3) sl(3,4) by (simp_all add: wf_tensor_def)
  have w1: "shape w1 = s0" "wf_tensor w1"
    using la lt sl(3) by (simp_all add: w1_def wf_tensor_def)
  have w1v: "\<forall>i < numel s0. data w1 ! i = data acc ! i + data t ! i"
    using la lt by (simp add: w1_def)
  let ?new1 = "AList.update key w1 new"
  have m1: "map_of ?new1 key = Some w1" by (simp add: update_conv')
  from Cons.IH [OF m1 w1 sl(5)]
  obtain new' w where r: "aggregate_targets ed key targets ?new1 = Inr new'"
      "map fst new' = map fst ?new1" "map_of new' = (map_of ?new1)(key \<mapsto> w)"
      "shape w = s0" "wf_tensor w"
      "\<forall>i < numel s0. data w ! i = foldl (+) (data w1 ! i) (map (\<lambda>t. data t ! i) ts)"
    by blast
  have run: "aggregate_targets ed key (target # targets) new = Inr new'"
    using Cons.prems(1) sl(2) bin r(1) by simp
  have keys: "map fst new' = map fst new"
    using r(2) update_present_keys [OF Cons.prems(1)] by simp
  have mp: "map_of new' = (map_of new)(key \<mapsto> w)"
    using r(3) by (simp add: update_conv')
  have vals: "\<forall>i < numel s0. data w ! i = foldl (+) (data acc ! i) (map (\<lambda>t. data t ! i) slices)"
    using r(6) w1v sl(1) by simp
  show ?case using run keys mp r(4,5) vals by blast
qed

lemma aggregate_targets_zero:
  assumes "map_of new key = Some acc" "shape acc = []" "data acc = [z]"
    "list_all2 (\<lambda>name t. map_of ed name = Some t \<and> shape t = s0 \<and> wf_tensor t) targets slices"
  shows "\<exists>new' w. aggregate_targets ed key targets new = Inr new' \<and>
           map fst new' = map fst new \<and> map_of new' = (map_of new)(key \<mapsto> w) \<and>
           shape w = (if targets = [] then [] else s0) \<and> wf_tensor w \<and>
           (\<forall>i < length (data w). data w ! i = foldl (+) z (map (\<lambda>t. data t ! i) slices))"
proof (cases targets)
  case Nil
  then have sl: "slices = []" using assms(4) by simp
  have mp: "map_of new = (map_of new)(key \<mapsto> acc)"
    using assms(1) by (simp add: map_upd_triv)
  have wf: "wf_tensor acc" using assms(2,3) by (simp add: wf_tensor_def numel_def)
  have "aggregate_targets ed key targets new = Inr new \<and>
           map fst new = map fst new \<and> map_of new = (map_of new)(key \<mapsto> acc) \<and>
           shape acc = (if targets = [] then [] else s0) \<and> wf_tensor acc \<and>
           (\<forall>i < length (data acc). data acc ! i = foldl (+) z (map (\<lambda>t. data t ! i) slices))"
    using mp wf Nil assms(2,3) sl by simp
  then show ?thesis by blast
next
  case (Cons target rest)
  from assms(4) Cons obtain t ts where sl: "slices = t # ts"
      "map_of ed target = Some t" "shape t = s0" "wf_tensor t"
      "list_all2 (\<lambda>name t. map_of ed name = Some t \<and> shape t = s0 \<and> wf_tensor t) rest ts"
    by (auto simp: list_all2_Cons1)
  define w1 where "w1 = \<lparr>shape = shape t, data = map ((+) z) (data t)\<rparr>"
  have bin: "tensor_binop (+) acc t = Inr w1"
    unfolding w1_def using assms(2,3) sl(4) by (rule tensor_binop_scalar)
  have lt: "length (data t) = numel s0" using sl(3,4) by (simp add: wf_tensor_def)
  have w1: "shape w1 = s0" "wf_tensor w1"
    using lt sl(3) by (simp_all add: w1_def wf_tensor_def)
  have w1v: "\<forall>i < numel s0. data w1 ! i = z + data t ! i"
    using lt by (simp add: w1_def)
  let ?new1 = "AList.update key w1 new"
  have m1: "map_of ?new1 key = Some w1" by (simp add: update_conv')
  from aggregate_targets_full [OF m1 w1 sl(5)]
  obtain new' w where r: "aggregate_targets ed key rest ?new1 = Inr new'"
      "map fst new' = map fst ?new1" "map_of new' = (map_of ?new1)(key \<mapsto> w)"
      "shape w = s0" "wf_tensor w"
      "\<forall>i < numel s0. data w ! i = foldl (+) (data w1 ! i) (map (\<lambda>t. data t ! i) ts)"
    by blast
  have run: "aggregate_targets ed key targets new = Inr new'"
    using Cons assms(1) sl(2) bin r(1) by simp
  have keys: "map fst new' = map fst new"
    using r(2) update_present_keys [OF assms(1)] by simp
  have mp: "map_of new' = (map_of new)(key \<mapsto> w)"
    using r(3) by (simp add: update_conv')
  have "length (data w) = numel s0" using r(4,5) by (simp add: wf_tensor_def)
  then have vals: "\<forall>i < length (data w). data w ! i = foldl (+) z (map (\<lambda>t. data t ! i) slices)"
    using r(6) w1v sl(1) by simp
  show ?thesis using run keys mp r(4,5) vals Cons by auto
qed

lemma aggregate_targets_unknown:
  assumes "map_of new key = Some acc"
    "(shape acc = [] \<and> (\<exists>z. data acc = [z])) \<or> (shape acc = s0 \<and> wf_tensor acc)"
    "\<forall>name t. map_of ed name = Some t \<longrightarrow> shape t = s0 \<and> wf_tensor t"
    "\<exists>name \<in> set targets. map_of ed name = None"
  shows "\<exists>n. aggregate_targets ed key targets new = Inl (KeyError n) \<and> n \<in> set targets \<and>
           map_of ed n = None"
  using assms(1,2,4)
proof (induction targets arbitrary: new acc)
  case Nil
  then show ?case by simp
next
  case (Cons target targets)
  show ?case
  proof (cases "map_of ed target")
    case None
    then show ?thesis using Cons.prems(1) by auto
  next
    case (Some t)
    then have t: "shape t = s0" "wf_tensor t" using assms(3) by auto
    have "\<exists>w1. tensor_binop (+) acc t = Inr w1 \<and> shape w1 = s0 \<and> wf_tensor w1"
    proof -
      have lt: "length (data t) = numel s0" using t by (simp add: wf_tensor_def)
      from Cons.prems(2) show ?thesis
      proof
        assume a: "shape acc = [] \<and> (\<exists>z. data acc = [z])"
        then obtain z where z: "data acc = [z]" by blast
        have "tensor_binop (+) acc t = Inr \<lparr>shape = shape t, data = map ((+) z) (data t)\<rparr>"
          using a z t(2) by (intro tensor_binop_scalar) simp_all
        then show ?thesis using t lt by (simp add: wf_tensor_def)
      next
        assume a: "shape acc = s0 \<and> wf_tensor acc"
        then have la: "length (data acc) = numel s0" by (simp add: wf_tensor_def)
        have "tensor_binop (+) acc t = Inr \<lparr>shape = shape t, data = map2 (+) (data acc) (data t)\<rparr>"
          using a t by (intro tensor_binop_same) simp_all
        then show ?thesis using t lt la by (simp add: wf_tensor_def)
      qed
    qed
    then obtain w1 where w1: "tensor_binop (+) acc t = Inr w1" "shape w1 = s0" "wf_tensor w1"
      by blast
    let ?new1 = "AList.update key w1 new"
    have m1: "map_of ?new1 key = Some w1" by (simp add: update_conv')
    have inv: "(shape w1 = [] \<and> (\<exists>z. data w1 = [z])) \<or> (shape w1 = s0 \<and> wf_tensor w1)"
      using w1 by simp
    have bad: "\<exists>name \<in> set targets. map_of ed name = None"
      using Cons.prems(3) Some by auto
    from Cons.IH [OF m1 inv bad]
    obtain n where n: "aggregate_targets ed key targets ?new1 = Inl (KeyError n)"
        "n \<in> set targets" "map_of ed n = None" by blast
    have "aggregate_targets ed key (target # targets) new = Inl (KeyError n)"
      using Cons.prems(1) Some w1(1) n(1) by simp
    then show ?thesis using n(2,3) by auto
  qed
qed

lemma aggregate_keys_ok:
  assumes ed: "\<forall>name t. map_of ed name = Some t \<longrightarrow> shape t = s0 \<and> wf_tensor t"
    and "distinct keys" "set keys \<inter> fst ` set new = {}"
    and "\<forall>key \<in> set keys. \<exists>targets. map_of agg key = Some targets \<and>
           (\<forall>name \<in> set targets. map_of ed name \<noteq> None)"
  shows "\<exists>d. aggregate_keys ed agg keys new = Inr d \<and> map fst d = map fst new @ keys \<and>
     (\<forall>k. k \<notin> set keys \<longrightarrow> map_of d k = map_of new k) \<and>
     (\<forall>key \<in> set keys. \<exists>targets slices v. map_of agg key = Some targets \<and>
         list_all2 (\<lambda>name t. map_of ed name = Some t) targets slices \<and>
         map_of d key = Some v \<and> shape v = (if targets = [] then [] else s0) \<and> wf_tensor v \<and>
         (\<forall>i < length (data v). data v ! i = foldl (+) 0 (map (\<lambda>t. data t ! i) slices)))"
  using assms(2-4)
proof (induction keys arbitrary: new)
  case Nil
  then show ?case by simp
next
  case (Cons key keys)
  from Cons.prems(3) obtain targets where tg: "map_of agg key = Some targets"
      "\<forall>name \<in> set targets. map_of ed name \<noteq> None" by auto
  have "\<forall>name \<in> set targets. \<exists>t. map_of ed name = Some t \<and> shape t = s0 \<and> wf_tensor t"
  proof
    fix name assume "name \<in> set targets"
    then have "map_of ed name \<noteq> None" using tg(2) by simp
    then obtain t where "map_of ed name = Some t" by (cases "map_of ed name") simp_all
    then show "\<exists>t. map_of ed name = Some t \<and> shape t = s0 \<and> wf_tensor t"
      using ed by simp
  qed
  then have "\<exists>slices.
    list_all2 (\<lambda>name t. map_of ed name = Some t \<and> shape t = s0 \<and> wf_tensor t) targets slices"
    by (rule list_all2_ex)
  then obtain slices where sl:
    "list_all2 (\<lambda>name t. map_of ed name = Some t \<and> shape t = s0 \<and> wf_tensor t) targets slices" ..
  then have sl': "list_all2 (\<lambda>name t. map_of ed name = Some t) targets slices"
    by (rule list_all2_mono) simp
  let ?zero = "\<lparr>shape = [], data = [0::'a]\<rparr>"
  let ?new0 = "AList.update key ?zero new"
  have m0: "map_of ?new0 key = Some ?zero" by (simp add: update_conv')
  have z1: "shape ?zero = []" and z2: "data ?zero = [0]" by simp_all
  from aggregate_targets_zero [OF m0 z1 z2 sl]
  obtain new1 w where r: "aggregate_targets ed key targets ?new0 = Inr new1"
      "map fst new1 = map fst ?new0" "map_of new1 = (map_of ?new0)(key \<mapsto> w)"
      "shape w = (if targets = [] then [] else s0)" "wf_tensor w"
      "\<forall>i < length (data w). data w ! i = foldl (+) 0 (map (\<lambda>t. data t ! i) slices)"
    by blast
  have notin: "key \<notin> fst ` set new" using Cons.prems(2) by auto
  have keys1: "map fst new1 = map fst new @ [key]"
    using r(2) notin by (simp add: update_keys)
  have mp1: "map_of new1 = (map_of new)(key \<mapsto> w)"
    using r(3) by (simp add: update_conv')
  have disj: "set keys \<inter> fst ` set new1 = {}"
  proof -
    have "fst ` set new1 = set (map fst new1)" by simp
    also have "\<dots> = fst ` set new \<union> {key}" by (simp only: keys1) auto
    finally show ?thesis using Cons.prems(1,2) by auto
  qed
  have dk: "distinct keys" using Cons.prems(1) by simp
  have rest: "\<forall>key \<in> set keys. \<exists>targets. map_of agg key = Some targets \<and>
           (\<forall>name \<in> set targets. map_of ed name \<noteq> None)"
    using Cons.prems(3) by simp
  from Cons.IH [OF dk disj rest]
  obtain d where d: "aggregate_keys ed agg keys new1 = Inr d"
      "map fst d = map fst new1 @ keys"
      "\<forall>k. k \<notin> set keys \<longrightarrow> map_of d k = map_of new1 k"
      "\<forall>key \<in> set keys. \<exists>targets slices v. map_of agg key = Some targets \<and>
         list_all2 (\<lambda>name t. map_of ed name = Some t) targets slices \<and>
         map_of d key = Some v \<and> shape v = (if targets = [] then [] else s0) \<and> wf_tensor v \<and>
         (\<forall>i < length (data v). data v ! i = foldl (+) 0 (map (\<lambda>t. data t ! i) slices))"
    by blast
  have run: "aggregate_keys ed agg (key # keys) new = Inr d"
    using tg(1) r(1) d(1) by simp
  have k: "map fst d = map fst new @ key # keys" using d(2) keys1 by simp
  have others: "\<forall>k. k \<notin> set (key # keys) \<longrightarrow> map_of d k = map_of new k"
    using d(3) mp1 by simp
  have "key \<notin> set keys" using Cons.prems(1) by simp
  then have "map_of d key = Some w" using d(3) mp1 by simp
  then have hd: "\<exists>targets slices v. map_of agg key = Some targets \<and>
         list_all2 (\<lambda>name t. map_of ed name = Some t) targets slices \<and>
         map_of d key = Some v \<and> shape v = (if targets = [] then [] else s0) \<and> wf_tensor v \<and>
         (\<forall>i < length (data v). data v ! i = foldl (+) 0 (map (\<lambda>t. data t ! i) slices))"
    using tg(1) sl' r(4,5,6) by blast
  have all: "\<forall>key' \<in> set (key # keys). \<exists>targets slices v. map_of agg key' = Some targets \<and>
         list_all2 (\<lambda>name t. map_of ed name = Some t) targets slices \<and>
         map_of d key' = Some v \<and> shape v = (if targets = [] then [] else s0) \<and> wf_tensor v \<and>
         (\<forall>i < length (data v). data v ! i = foldl (+) 0 (map (\<lambda>t. data t ! i) slices))"
    using hd d(4) by simp
  show ?case by (rule exI [of _ d], intro conjI run k others all)
qed

lemma aggregate_keys_unknown:
  assumes ed: "\<forall>name t. map_of ed name = Some t \<longrightarrow> shape t = s0 \<and> wf_tensor t"
    and "\<forall>key \<in> set keys. \<exists>targets. map_of agg key = Some targets"
    and "\<exists>key \<in> set keys. \<exists>targets. map_of agg key = Some targets \<and>
           (\<exists>name \<in> set targets. map_of ed name = None)"
  shows "\<exists>n. aggregate_keys ed agg keys new = Inl (KeyError n) \<and> map_of ed n = None \<and>
           (\<exists>key \<in> set keys. \<exists>targets. map_of agg key = Some targets \<and> n \<in> set targets)"
  using assms(2,3)
proof (induction keys arbitrary: new)
  case Nil
  then show ?case by simp
next
  case (Cons key keys)
  from Cons.prems(1) obtain targets where tg: "map_of agg key = Some targets" by auto
  let ?zero = "\<lparr>shape = [], data = [0::'a]\<rparr>"
  let ?new0 = "AList.update key ?zero new"
  have m0: "map_of ?new0 key = Some ?zero" by (simp add: update_conv')
  have inv0: "(shape ?zero = [] \<and> (\<exists>z. data ?zero = [z])) \<or> (shape ?zero = s0 \<and> wf_tensor ?zero)"
    by simp
  show ?case
  proof (cases "\<exists>name \<in> set targets. map_of ed name = None")
    case True
    from aggregate_targets_unknown [OF m0 inv0 ed True]
    obtain n where n: "aggregate_targets ed key targets ?new0 = Inl (KeyError n)"
        "n \<in> set targets" "map_of ed n = None" by blast
    have "aggregate_keys ed agg (key # keys) new = Inl (KeyError n)"
      using tg n(1) by simp
    then show ?thesis using n(2,3) tg by auto
  next
    case False
    have "\<forall>name \<in> set targets. \<exists>t. map_of ed name = Some t \<and> shape t = s0 \<and> wf_tensor t"
    proof
      fix name assume "name \<in> set targets"
      then have "map_of ed name \<noteq> None" using False by simp
      then obtain t where "map_of ed name = Some t" by (cases "map_of ed name") simp_all
      then show "\<exists>t. map_of ed name = Some t \<and> shape t = s0 \<and> wf_tensor t"
        using ed by simp
    qed
    then have "\<exists>slices.
      list_all2 (\<lambda>name t. map_of ed name = Some t \<and> shape t = s0 \<and> wf_tensor t) targets slices"
      by (rule list_all2_ex)
    then obtain slices where sl:
      "list_all2 (\<lambda>name t. map_of ed name = Some t \<and> shape t = s0 \<and> wf_tensor t) targets slices" ..
    have z1: "shape ?zero = []" and z2: "data ?zero = [0]" by simp_all
    from aggregate_targets_zero [OF m0 z1 z2 sl]
    obtain new1 where r: "aggregate_targets ed key targets ?new0 = Inr new1" by blast
    have rest: "\<forall>key \<in> set keys. \<exists>targets. map_of agg key = Some targets"
      using Cons.prems(1) by simp
    have bad: "\<exists>key \<in> set keys. \<exists>targets. map_of agg key = Some targets \<and>
           (\<exists>name \<in> set targets. map_of ed name = None)"
      using Cons.prems(2) False tg by auto
    from Cons.IH [OF rest bad, of new1]
    obtain n where n: "aggregate_keys ed agg keys new1 = Inl (KeyError n)" "map_of ed n = None"
        "\<exists>key \<in> set keys. \<exists>targets. map_of agg key = Some targets \<and> n \<in> set targets"
      by blast
    have "aggregate_keys ed agg (key # keys) new = Inl (KeyError n)"
      using tg r n(1) by simp
    then show ?thesis using n(2,3) by auto
  qed
qed

lemma to_dict_None_values:
  fixes self :: "('a::{zero,plus}, 'x, 'm) Separator"
  assumes "shape estimates = d0 # d1 # rest" "length (target_models self) \<le> d1"
    "distinct (map fst (target_models self))"
  shows "\<exists>ed. to_dict self estimates None = Inr ed \<and>
           to_dict_slices (enumerate 0 (map fst (target_models self))) estimates [] = Inr ed \<and>
           map fst ed = map fst (target_models self) \<and>
           (\<forall>name t. map_of ed name = Some t \<longrightarrow> shape t = d0 # rest \<and> wf_tensor t) \<and>
           (\<forall>name. map_of ed name = None \<longleftrightarrow> name \<notin> fst ` set (target_models self))"
proof -
  let ?tm = "target_models self"
  from to_dict_None_ok [OF assms]
  obtain ed where ed: "to_dict self estimates None = Inr ed" "map fst ed = map fst ?tm"
      "\<forall>j < length ?tm. \<exists>v. select_dim1 estimates j = Inr v \<and>
               map_of ed (fst (?tm ! j)) = Some v" by blast
  have sl: "to_dict_slices (enumerate 0 (map fst ?tm)) estimates [] = Inr ed"
    using ed(1) by (simp add: to_dict_def split: sum.splits)
  have vals: "\<forall>name t. map_of ed name = Some t \<longrightarrow> shape t = d0 # rest \<and> wf_tensor t"
  proof (intro allI impI)
    fix name t assume m: "map_of ed name = Some t"
    then have "(name, t) \<in> set ed" by (rule map_of_SomeD)
    then have "name \<in> set (map fst ed)" by force
    then have "name \<in> set (map fst ?tm)" by (simp only: ed(2))
    then obtain j where "j < length (map fst ?tm)" "map fst ?tm ! j = name"
      unfolding in_set_conv_nth by blast
    then have j: "j < length ?tm" "name = fst (?tm ! j)" by simp_all
    with ed(3) obtain v where v: "select_dim1 estimates j = Inr v" "map_of ed name = Some v"
      by blast
    have "j < d1" using j(1) assms(2) by simp
    from select_dim1_ok [OF assms(1) this] v(1)
    have "shape v = d0 # rest \<and> wf_tensor v" by (auto simp: wf_tensor_def numel_def)
    then show "shape t = d0 # rest \<and> wf_tensor t" using m v(2) by simp
  qed
  have none: "\<forall>name. map_of ed name = None \<longleftrightarrow> name \<notin> fst ` set ?tm"
  proof
    fix name
    have "map_of ed name = None \<longleftrightarrow> name \<notin> fst ` set ed" by (rule map_of_eq_None_iff)
    also have "fst ` set ed = set (map fst ed)" by simp
    also have "\<dots> = fst ` set ?tm" by (simp only: ed(2)) simp
    finally show "map_of ed name = None \<longleftrightarrow> name \<notin> fst ` set ?tm" .
  qed
  show ?thesis by (rule exI [of _ ed], intro conjI ed(1) sl ed(2) vals none)
qed

section \<open>Aggregation\<close>

text \<open>
  Claim C4. For an estimate tensor with at least as many target slots as the registry has
  targets, and an aggregation dictionary (distinct group names) whose groups name
  registered targets only, \<^verbatim>\<open>to_dict\<close> returns a dictionary whose keys are exactly the
  group names, in order. The tensor of a group is, entry by entry, the sum of the slices
  of its targets, added from the left to an initial 0 (for a group without targets it is
  the tensor without axes that holds 0). No other name, in particular no target name that
  is not a group name, is a key of the result.
\<close>

theorem aggregation_sums:
  fixes self :: "('a::{zero,plus}, 'x, 'm) Separator"
  assumes "shape estimates = d0 # d1 # rest" "length (target_models self) \<le> d1"
    "distinct (map fst (target_models self))" "distinct (map fst agg)"
    "\<forall>(key, targets) \<in> set agg. set targets \<subseteq> fst ` set (target_models self)"
  shows "\<exists>ed d. to_dict self estimates None = Inr ed \<and>
      to_dict self estimates (Some agg) = Inr d \<and>
      map fst d = map fst agg \<and>
      (\<forall>(key, targets) \<in> set agg. \<exists>slices v.
          list_all2 (\<lambda>name t. map_of ed name = Some t) targets slices \<and>
          map_of d key = Some v \<and>
          shape v = (if targets = [] then [] else d0 # rest) \<and> wf_tensor v \<and>
          (\<forall>i < length (data v). data v ! i = foldl (+) 0 (map (\<lambda>t. data t ! i) slices))) \<and>
      (\<forall>name. name \<notin> fst ` set agg \<longrightarrow> map_of d name = None)"
proof -
  let ?tm = "target_models self"
  from to_dict_None_values [OF assms(1-3)]
  obtain ed where ed: "to_dict self estimates None = Inr ed"
      "to_dict_slices (enumerate 0 (map fst ?tm)) estimates [] = Inr ed"
      "\<forall>name t. map_of ed name = Some t \<longrightarrow> shape t = d0 # rest \<and> wf_tensor t"
      "\<forall>name. map_of ed name = None \<longleftrightarrow> name \<notin> fst ` set ?tm"
    by blast
  have groups: "\<forall>key \<in> set (map fst agg). \<exists>targets. map_of agg key = Some targets \<and>
           (\<forall>name \<in> set targets. map_of ed name \<noteq> None)"
  proof
    fix key assume "key \<in> set (map fst agg)"
    then obtain targets where kt: "(key, targets) \<in> set agg" by auto
    then have "map_of agg key = Some targets" using assms(4) by simp
    moreover have "\<forall>name \<in> set targets. map_of ed name \<noteq> None"
      using kt assms(5) ed(4) by auto
    ultimately show "\<exists>targets. map_of agg key = Some targets \<and>
           (\<forall>name \<in> set targets. map_of ed name \<noteq> None)" by blast
  qed
  have disj: "set (map fst agg) \<inter> fst ` set ([] :: (string \<times> 'a tensor) list) = {}" by simp
  from aggregate_keys_ok [OF ed(3) assms(4) disj groups]
  obtain d where d: "aggregate_keys ed agg (map fst agg) [] = Inr d"
      "map fst d = map fst ([] :: (string \<times> 'a tensor) list) @ map fst agg"
      "\<forall>key \<in> set (map fst agg). \<exists>targets slices v. map_of agg key = Some targets \<and>
         list_all2 (\<lambda>name t. map_of ed name = Some t) targets slices \<and>
         map_of d key = Some v \<and> shape v = (if targets = [] then [] else d0 # rest) \<and>
         wf_tensor v \<and>
         (\<forall>i < length (data v). data v ! i = foldl (+) 0 (map (\<lambda>t. data t ! i) slices))"
    by blast
  have run: "to_dict self estimates (Some agg) = Inr d"
    using ed(2) d(1) by (simp add: to_dict_def)
  have keys: "map fst d = map fst agg" using d(2) by simp
  have vals: "\<forall>(key, targets) \<in> set agg. \<exists>slices v.
          list_all2 (\<lambda>name t. map_of ed name = Some t) targets slices \<and>
          map_of d key = Some v \<and>
          shape v = (if targets = [] then [] else d0 # rest) \<and> wf_tensor v \<and>
          (\<forall>i < length (data v). data v ! i = foldl (+) 0 (map (\<lambda>t. data t ! i) slices))"
  proof (intro ballI, clarify)
    fix key targets assume kt: "(key, targets) \<in> set agg"
    then have m: "map_of agg key = Some targets" using assms(4) by simp
    have "key \<in> set (map fst agg)" using kt by force
    with d(3) obtain targets' slices v where r: "map_of agg key = Some targets'"
        "list_all2 (\<lambda>name t. map_of ed name = Some t) targets' slices"
        "map_of d key = Some v" "shape v = (if targets' = [] then [] else d0 # rest)"
        "wf_tensor v"
        "\<forall>i < length (data v). data v ! i = foldl (+) 0 (map (\<lambda>t. data t ! i) slices)"
      by blast
    have "targets' = targets" using m r(1) by simp
    then show "\<exists>slices v.
          list_all2 (\<lambda>name t. map_of ed name = Some t) targets slices \<and>
          map_of d key = Some v \<and>
          shape v = (if targets = [] then [] else d0 # rest) \<and> wf_tensor v \<and>
          (\<forall>i < length (data v). data v ! i = foldl (+) 0 (map (\<lambda>t. data t ! i) slices))"
      using r(2-6) by blast
  qed
  have absent: "\<forall>name. name \<notin> fst ` set agg \<longrightarrow> map_of d name = None"
  proof (intro allI impI)
    fix name assume "name \<notin> fst ` set agg"
    then have "name \<notin> set (map fst d)" by (simp add: keys)
    then have "name \<notin> fst ` set d" by simp
    then show "map_of d name = None" by (simp add: map_of_eq_None_iff)
  qed
  show ?thesis by (rule exI [of _ ed], rule exI [of _ d], intro conjI ed(1) run keys vals absent)
qed

lemma example_estimates_ok:
  "shape example_estimates = 1 # 2 # [2, 3]"
  "length (target_models example_separator) \<le> 2"
  by (simp_all add: example_estimates_def example_separator_simps)

theorem aggregation_sums_witness:
  "\<exists>ed d. to_dict example_separator example_estimates None = Inr ed \<and>
      to_dict example_separator example_estimates (Some example_aggregate) = Inr d \<and>
      map fst d = map fst example_aggregate \<and>
      (\<forall>(key, targets) \<in> set example_aggregate. \<exists>slices v.
          list_all2 (\<lambda>name t. map_of ed name = Some t) targets slices \<and>
          map_of d key = Some v \<and>
          shape v = (if targets = [] then [] else 1 # [2, 3]) \<and> wf_tensor v \<and>
          (\<forall>i < length (data v). data v ! i = foldl (+) 0 (map (\<lambda>t. data t ! i) slices))) \<and>
      (\<forall>name. name \<notin> fst ` set example_aggregate \<longrightarrow> map_of d name = None)"
proof -
  have h: "distinct (map fst example_aggregate)"
    "\<forall>(key, targets) \<in> set example_aggregate.
        set targets \<subseteq> fst ` set (target_models example_separator)"
    by (simp_all add: example_aggregate_def example_separator_simps)
  show ?thesis
    by (rule aggregation_sums [OF example_estimates_ok example_separator_distinct h])
qed

section \<open>Unknown target names\<close>

text \<open>
  Claim C10. For an estimate tensor with at least as many target slots as the registry has
  targets: when some group of the aggregation dictionary contains a name that is not
  registered, \<^verbatim>\<open>to_dict\<close> raises a \<^verbatim>\<open>KeyError\<close> and returns no dictionary. The key
  of the error is a name from a group, as it was given, and it is not registered.
\<close>

theorem aggregation_unknown_target:
  fixes self :: "('a::{zero,plus}, 'x, 'm) Separator"
  assumes "shape estimates = d0 # d1 # rest" "length (target_models self) \<le> d1"
    "distinct (map fst (target_models self))"
    "map_of agg key = Some targets" "name \<in> set targets"
    "name \<notin> fst ` set (target_models self)"
  shows "\<exists>n. to_dict self estimates (Some agg) = Inl (KeyError n) \<and>
           n \<notin> fst ` set (target_models self) \<and>
           (\<exists>key' targets'. map_of agg key' = Some targets' \<and> n \<in> set targets')"
proof -
  let ?tm = "target_models self"
  from to_dict_None_values [OF assms(1-3)]
  obtain ed where ed: "to_dict self estimates None = Inr ed"
      "to_dict_slices (enumerate 0 (map fst ?tm)) estimates [] = Inr ed"
      "\<forall>name t. map_of ed name = Some t \<longrightarrow> shape t = d0 # rest \<and> wf_tensor t"
      "\<forall>name. map_of ed name = None \<longleftrightarrow> name \<notin> fst ` set ?tm"
    by blast
  have all: "\<forall>key \<in> set (map fst agg). \<exists>targets. map_of agg key = Some targets"
  proof
    fix k assume "k \<in> set (map fst agg)"
    then obtain t where "(k, t) \<in> set agg" by auto
    then show "\<exists>targets. map_of agg k = Some targets" by (rule weak_map_of_SomeI)
  qed
  have "(key, targets) \<in> set agg" using assms(4) by (rule map_of_SomeD)
  then have "key \<in> set (map fst agg)" by force
  moreover have "map_of ed name = None" using assms(6) ed(4) by simp
  ultimately have bad: "\<exists>key \<in> set (map fst agg). \<exists>targets. map_of agg key = Some targets \<and>
           (\<exists>name \<in> set targets. map_of ed name = None)"
    using assms(4,5) by blast
  from aggregate_keys_unknown [OF ed(3) all bad, of "[]"]
  obtain n where n: "aggregate_keys ed agg (map fst agg) [] = Inl (KeyError n)"
      "map_of ed n = None"
      "\<exists>key \<in> set (map fst agg). \<exists>targets. map_of agg key = Some targets \<and> n \<in> set targets"
    by blast
  have "to_dict self estimates (Some agg) = Inl (KeyError n)"
    using ed(2) n(1) by (simp add: to_dict_def)
  moreover have "n \<notin> fst ` set ?tm" using n(2) ed(4) by simp
  ultimately show ?thesis using n(3) by blast
qed

theorem aggregation_unknown_target_witness:
  "\<exists>n. to_dict example_separator example_estimates (Some example_bad_aggregate)
           = Inl (KeyError n) \<and>
        n \<notin> fst ` set (target_models example_separator) \<and>
        (\<exists>key' targets'. map_of example_bad_aggregate key' = Some targets' \<and> n \<in> set targets')"
proof -
  have h: "map_of example_bad_aggregate ''mix'' = Some [''vocals'', ''bass'']"
      "''bass'' \<in> set [''vocals'', ''bass'']"
      "''bass'' \<notin> fst ` set (target_models example_separator)"
    by (simp_all add: example_bad_aggregate_def example_separator_simps)
  show ?thesis
    by (rule aggregation_unknown_target [OF example_estimates_ok example_separator_distinct h])
qed




lemma modules_child:
  "c \<in> set cs \<Longrightarrow> set (modules c) \<subseteq> set (modules (Module k t ps cs))"
  by auto


section \<open>Freeze semantics\<close>










section \<open>Input normalization\<close>



end
